theory Spec2Isabelle
  imports Main "HOL-Library.Word"
begin

unbundle bit_operations_syntax

section \<open>Data model\<close>

text \<open>
  The emulator of \<^verbatim>\<open>src/program.py\<close>. Python integers are unbounded, so register
  values, addresses and the cycle counter are \<open>int\<close>; \<^verbatim>\<open>&\<close> is \<open>AND\<close> and
  \<^verbatim>\<open>>>\<close> is \<open>drop_bit\<close> on \<open>int\<close>. A \<^verbatim>\<open>bytearray\<close> is a list of bytes.
  An exception is a value of \<open>error\<close>.
\<close>

type_synonym byte = "8 word"

datatype error = IndexError | OverflowError | ValueError | UnpicklingError

text \<open>\<^verbatim>\<open>class MIPS_CPU\<close>: \<^verbatim>\<open>regs\<close> (32 GPRs and the PC at index 32),
  \<^verbatim>\<open>memory\<close> and \<^verbatim>\<open>cycles\<close>.\<close>

record MIPS_CPU =
  regs :: "int list"
  memory :: "byte list"
  cycles :: int

text \<open>The two dictionaries of \<^verbatim>\<open>N64Emulator\<close> have a fixed set of keys, which the
  program only toggles; each is a record with one field per key.\<close>

record plugin_flags =
  Personalizer :: bool
  Rediscovered :: bool
  Wonder_Graphics :: bool
  Debugger :: bool

record cheat_flags =
  Infinite_Health :: bool

text \<open>\<^verbatim>\<open>class N64Emulator\<close>. \<^verbatim>\<open>rom\<close> is \<open>None\<close> until an image is loaded.\<close>

record N64Emulator =
  cpu :: MIPS_CPU
  rom :: "byte list option"
  running :: bool
  paused :: bool
  plugins :: plugin_flags
  cheats :: cheat_flags
  mario_hat_color :: string

text \<open>What \<^verbatim>\<open>pickle.load\<close> finds in a state file: the 3-tuple that
  \<^verbatim>\<open>save_state\<close> writes (register list, memory and hat colour, of any lengths),
  a 2-tuple of a register list and a memory (a snapshot of another shape), or bytes that
  are no pickle at all.\<close>

datatype pickled =
    Tuple3 "int list" "byte list" string
  | Tuple2 "int list" "byte list"
  | Garbage

section \<open>Python primitives\<close>

text \<open>\<^verbatim>\<open>xs[lo:hi]\<close> for \<open>0 \<le> lo \<le> hi\<close>, and the slice assignment
  \<^verbatim>\<open>xs[lo:hi] = ys\<close>, which replaces the slice by \<open>ys\<close> whatever the length of
  \<open>ys\<close> is.\<close>

definition slice :: "'a list \<Rightarrow> nat \<Rightarrow> nat \<Rightarrow> 'a list" where
  "slice xs lo hi = take (hi - lo) (drop lo xs)"

definition slice_assign :: "'a list \<Rightarrow> nat \<Rightarrow> nat \<Rightarrow> 'a list \<Rightarrow> 'a list" where
  "slice_assign xs lo hi ys = take lo xs @ ys @ drop hi xs"

text \<open>\<^verbatim>\<open>int.from_bytes(bs, 'big')\<close>.\<close>

definition from_bytes_big :: "byte list \<Rightarrow> int" where
  "from_bytes_big bs = foldl (\<lambda>acc b. acc * 256 + uint b) 0 bs"

text \<open>\<^verbatim>\<open>value.to_bytes(n, 'big')\<close>: the \<open>n\<close> low bytes, most significant first;
  OverflowError for a negative value or one that does not fit.\<close>

primrec big_endian :: "nat \<Rightarrow> int \<Rightarrow> byte list" where
  "big_endian 0 v = []"
| "big_endian (Suc n) v = big_endian n (v div 256) @ [word_of_int v]"

definition to_bytes_big :: "int \<Rightarrow> nat \<Rightarrow> error + byte list" where
  "to_bytes_big v n =
     (if v < 0 then Inl OverflowError
      else if 2 ^ (8 * n) \<le> v then Inl OverflowError
      else Inr (big_endian n v))"

section \<open>MIPS\_CPU\<close>

definition MIPS_CPU_init :: MIPS_CPU where
  "MIPS_CPU_init =
     \<lparr>regs = (replicate 33 0)[32 := 0xBFC00000],
      memory = replicate (4 * 1024 * 1024) 0,
      cycles = 0\<rparr>"

definition read_word :: "MIPS_CPU \<Rightarrow> int \<Rightarrow> int" where
  "read_word c addr0 =
     (let addr = addr0 - 0x80000000 in
      if 0 \<le> addr \<and> addr < int (length (memory c)) - 3
      then from_bytes_big (slice (memory c) (nat addr) (nat addr + 4))
      else 0)"

definition write_word :: "MIPS_CPU \<Rightarrow> int \<Rightarrow> int \<Rightarrow> error + MIPS_CPU" where
  "write_word c addr0 v =
     (let addr = addr0 - 0x80000000 in
      if 0 \<le> addr \<and> addr < int (length (memory c)) - 3
      then (case to_bytes_big v 4 of
              Inl e \<Rightarrow> Inl e
            | Inr bs \<Rightarrow> Inr (c\<lparr>memory := slice_assign (memory c) (nat addr) (nat addr + 4) bs\<rparr>))
      else Inr c)"

text \<open>\<^verbatim>\<open>MIPS_CPU.step\<close>. \<^verbatim>\<open>self.regs[32]\<close> raises IndexError on a register list
  of fewer than 33 slots, before anything is stored; the register numbers decoded from
  the instruction are below 32.\<close>

definition step :: "MIPS_CPU \<Rightarrow> error + MIPS_CPU" where
  "step c =
     (if length (regs c) \<le> 32 then Inl IndexError
      else
        let pc = regs c ! 32;
            instr = read_word c pc;
            opcode = drop_bit 26 instr AND 0x3F;
            c1 =
              (if opcode = 0x08 then
                 let rt = drop_bit 16 instr AND 0x1F;
                     rs = drop_bit 21 instr AND 0x1F;
                     imm = instr AND 0xFFFF;
                     imm = (if imm AND 0x8000 \<noteq> 0 then imm - 0x10000 else imm)
                 in c\<lparr>regs := (regs c)[nat rt := (regs c ! nat rs + imm) AND 0xFFFFFFFF]\<rparr>
               else if opcode = 0x23 then
                 let rt = drop_bit 16 instr AND 0x1F;
                     rs = drop_bit 21 instr AND 0x1F;
                     imm = instr AND 0xFFFF;
                     imm = (if imm AND 0x8000 \<noteq> 0 then imm - 0x10000 else imm);
                     addr = (regs c ! nat rs + imm) AND 0xFFFFFFFF
                 in c\<lparr>regs := (regs c)[nat rt := read_word c addr]\<rparr>
               else if opcode = 0x00 then
                 let funct = instr AND 0x3F in
                 if funct = 0x20 then
                   let rd = drop_bit 11 instr AND 0x1F;
                       rs = drop_bit 21 instr AND 0x1F;
                       rt = drop_bit 16 instr AND 0x1F
                   in c\<lparr>regs := (regs c)[nat rd := (regs c ! nat rs + regs c ! nat rt) AND 0xFFFFFFFF]\<rparr>
                 else c
               else c)
        in Inr (c1\<lparr>regs := (regs c1)[32 := (pc + 4) AND 0xFFFFFFFF],
                    cycles := cycles c1 + 1\<rparr>))"

section \<open>N64Emulator\<close>

definition N64Emulator_init :: N64Emulator where
  "N64Emulator_init =
     \<lparr>cpu = MIPS_CPU_init,
      rom = None,
      running = False,
      paused = False,
      plugins = \<lparr>Personalizer = True, Rediscovered = False,
                 Wonder_Graphics = False, Debugger = False\<rparr>,
      cheats = \<lparr>Infinite_Health = False\<rparr>,
      mario_hat_color = ''Red''\<rparr>"

text \<open>\<^verbatim>\<open>load_rom\<close>; \<open>img\<close> is what \<^verbatim>\<open>f.read()\<close> returns. The result is the
  machine after the call and the exception raised, if any: the store into
  \<^verbatim>\<open>regs[32]\<close> raises IndexError on a register list of fewer than 33 slots, after the
  image has been kept and copied.\<close>

definition load_rom :: "byte list \<Rightarrow> N64Emulator \<Rightarrow> N64Emulator \<times> error option" where
  "load_rom img e =
     (let e1 = e\<lparr>rom := Some img\<rparr>;
          c1 = (cpu e1)\<lparr>memory := slice_assign (memory (cpu e1)) 0 0x1000 (slice img 0 0x1000)\<rparr>;
          e2 = e1\<lparr>cpu := c1\<rparr>
      in if length (regs c1) \<le> 32 then (e2, Some IndexError)
         else (e2\<lparr>cpu := c1\<lparr>regs := (regs c1)[32 := 0x80000000]\<rparr>\<rparr>, None))"

text \<open>\<^verbatim>\<open>reset\<close>; \<^verbatim>\<open>if self.rom\<close> is false for \<open>None\<close> and for the empty
  byte string.\<close>

definition reset :: "N64Emulator \<Rightarrow> N64Emulator" where
  "reset e =
     (let e1 = e\<lparr>cpu := MIPS_CPU_init\<rparr>;
          e2 = (case rom e1 of
                  None \<Rightarrow> e1
                | Some r \<Rightarrow>
                    if r = [] then e1
                    else e1\<lparr>cpu := (cpu e1)\<lparr>memory :=
                           slice_assign (memory (cpu e1)) 0 0x1000 (slice r 0 0x1000)\<rparr>\<rparr>)
      in e2\<lparr>running := True\<rparr>)"

text \<open>\<^verbatim>\<open>N64Emulator.step\<close>; \<open>rnd\<close> stands for the draw of
  \<^verbatim>\<open>random.choice\<close>.\<close>

definition emu_step :: "nat \<Rightarrow> N64Emulator \<Rightarrow> error + N64Emulator" where
  "emu_step rnd e =
     (if running e then
        if paused e then Inr e
        else
          (case step (cpu e) of
             Inl err \<Rightarrow> Inl err
           | Inr c1 \<Rightarrow>
               let hat = (if Personalizer (plugins e) \<and> cycles c1 mod 1000 = 0
                          then [''Red'', ''Blue'', ''Green''] ! (rnd mod 3)
                          else mario_hat_color e);
                   r2 = (if Rediscovered (plugins e) \<and> cycles c1 = 5000
                         then write_word c1 0x80300000 1 else Inr c1)
               in (case r2 of
                     Inl err \<Rightarrow> Inl err
                   | Inr c2 \<Rightarrow>
                       (case (if Infinite_Health (cheats e)
                              then write_word c2 0x8033B21E 8 else Inr c2) of
                          Inl err \<Rightarrow> Inl err
                        | Inr c3 \<Rightarrow> Inr (e\<lparr>cpu := c3, mario_hat_color := hat\<rparr>))))
      else Inr e)"

text \<open>\<^verbatim>\<open>save_state\<close> returns the object it pickles into the file, and
  \<^verbatim>\<open>load_state\<close> takes what \<^verbatim>\<open>pickle.load\<close> finds there. \<^verbatim>\<open>load_state\<close>
  returns the machine after the call and the exception raised, if any: Python unpacks the
  whole right-hand side before the first of the three stores, so a failure leaves the
  machine as it was.\<close>

definition save_state :: "N64Emulator \<Rightarrow> pickled" where
  "save_state e = Tuple3 (regs (cpu e)) (memory (cpu e)) (mario_hat_color e)"

fun load_state :: "pickled \<Rightarrow> N64Emulator \<Rightarrow> N64Emulator \<times> error option" where
  "load_state (Tuple3 r m h) e =
     (let e1 = e\<lparr>cpu := (cpu e)\<lparr>regs := r\<rparr>\<rparr>;
          e2 = e1\<lparr>cpu := (cpu e1)\<lparr>memory := m\<rparr>\<rparr>;
          e3 = e2\<lparr>mario_hat_color := h\<rparr>
      in (e3, None))"
| "load_state (Tuple2 r m) e = (e, Some ValueError)"
| "load_state Garbage e = (e, Some UnpicklingError)"

section \<open>Specification-side notions and example machines\<close>

text \<open>The specification's \<open>sign_extend16\<close>: the low 16 bits of the immediate read as a
  two's-complement number. \<^verbatim>\<open>step\<close> itself tests bit 15 and subtracts \<open>0x10000\<close>;
  the two are compared below.\<close>

definition sign_extend16 :: "int \<Rightarrow> int" where
  "sign_extend16 imm = sint (word_of_int imm :: 16 word)"

text \<open>The processor of a fresh emulator after \<^verbatim>\<open>load_rom\<close> of an image.\<close>

definition booted :: "byte list \<Rightarrow> MIPS_CPU" where
  "booted img = cpu (fst (load_rom img N64Emulator_init))"

text \<open>4096-byte images whose first word is one instruction:
  \<^verbatim>\<open>addi $1, $0, 5\<close> (the scenario of the specification), \<^verbatim>\<open>addi $0, $0, 5\<close>,
  \<^verbatim>\<open>addi $1, $0, 0x8000\<close>, \<^verbatim>\<open>addi $1, $2, 1\<close>, and a word of opcode \<open>0x3F\<close>.\<close>

definition addi_r1_image :: "byte list" where
  "addi_r1_image = [0x20, 0x01, 0x00, 0x05] @ replicate 4092 0"

definition addi_r0_image :: "byte list" where
  "addi_r0_image = [0x20, 0x00, 0x00, 0x05] @ replicate 4092 0"

definition addi_neg_image :: "byte list" where
  "addi_neg_image = [0x20, 0x01, 0x80, 0x00] @ replicate 4092 0"

definition addi_wrap_image :: "byte list" where
  "addi_wrap_image = [0x20, 0x41, 0x00, 0x01] @ replicate 4092 0"

definition unknown_image :: "byte list" where
  "unknown_image = [0xFC, 0x00, 0x00, 0x00] @ replicate 4092 0"

text \<open>An image of four bytes only.\<close>

definition short_image :: "byte list" where
  "short_image = [0x20, 0x01, 0x00, 0x05]"

text \<open>The machine booted from \<open>addi_wrap_image\<close> with register 2 holding
  \<open>0xFFFFFFFF\<close>.\<close>

definition addi_wrap_state :: MIPS_CPU where
  "addi_wrap_state =
     (booted addi_wrap_image)\<lparr>regs := (regs (booted addi_wrap_image))[2 := 0xFFFFFFFF]\<rparr>"

text \<open>A state file of the right shape and the wrong sizes: two registers and one byte
  of memory.\<close>

definition short_snapshot :: pickled where
  "short_snapshot = Tuple3 [1, 2] [0xFF] ''Red''"

text \<open>A running machine with no image (\<^verbatim>\<open>reset\<close> of a fresh emulator), and the same
  machine one \<^verbatim>\<open>N64Emulator.step\<close> later: the PC has moved on by 4 and the cycle
  counter is 1.\<close>

definition captured_machine :: N64Emulator where
  "captured_machine = reset N64Emulator_init"

definition later_machine :: N64Emulator where
  "later_machine =
     captured_machine\<lparr>cpu := (cpu captured_machine)
       \<lparr>regs := (regs (cpu captured_machine))[32 := 0xBFC00004], cycles := 1\<rparr>\<rparr>"

lemmas boot_simps = booted_def load_rom_def N64Emulator_init_def MIPS_CPU_init_def
  read_word_def slice_def slice_assign_def from_bytes_big_def Let_def

section \<open>Masks and bit fields\<close>

lemma and_mask32: "(x::int) AND 0xFFFFFFFF = x mod 2 ^ 32"
proof -
  have "(0xFFFFFFFF::int) = mask 32" by (simp add: mask_eq_exp_minus_1)
  then show ?thesis by (simp only: take_bit_eq_mask [symmetric] take_bit_eq_mod)
qed

lemma and_mask16: "(x::int) AND 0xFFFF = take_bit 16 x"
proof -
  have "(0xFFFF::int) = mask 16" by (simp add: mask_eq_exp_minus_1)
  then show ?thesis by (simp only: take_bit_eq_mask [symmetric])
qed

lemma and_mask5: "(x::int) AND 0x1F = take_bit 5 x"
proof -
  have "(0x1F::int) = mask 5" by (simp add: mask_eq_exp_minus_1)
  then show ?thesis by (simp only: take_bit_eq_mask [symmetric])
qed

text \<open>A register number decoded from an instruction never reaches the PC slot.\<close>

lemma reg_index_lt: "nat ((x::int) AND 0x1F) < 32"
proof -
  have "take_bit 5 x < (2::int) ^ 5" by (rule take_bit_int_less_exp)
  then show ?thesis by (simp add: and_mask5)
qed

text \<open>The test of bit 15 followed by the subtraction is two's-complement sign
  extension.\<close>

lemma sign_extend_code:
  "sign_extend16 (instr AND 0xFFFF) =
     (if (instr AND 0xFFFF) AND 0x8000 \<noteq> 0 then (instr AND 0xFFFF) - 0x10000
      else instr AND 0xFFFF)"
proof -
  have "(take_bit 16 instr AND 2 ^ 15 \<noteq> 0) = bit instr 15"
    using and_exp_eq_0_iff_not_bit [of "take_bit 16 instr" 15]
    by (simp only: bit_take_bit_iff) simp
  then have b15: "((instr AND 0xFFFF) AND 0x8000 \<noteq> 0) = bit instr 15"
    by (simp add: and_mask16)
  have "sign_extend16 (instr AND 0xFFFF) = signed_take_bit 15 (take_bit 16 instr)"
    by (simp add: sign_extend16_def and_mask16 sint_sbintrunc')
  also have "\<dots> = take_bit 16 instr - 2 ^ 16 * of_bool (bit instr 15)"
    by (simp add: signed_take_bit_eq_take_bit_minus bit_take_bit_iff)
  finally show ?thesis
    unfolding b15 by (simp add: and_mask16)
qed

section \<open>Bytes and slices\<close>

lemma from_bytes_big_snoc: "from_bytes_big (bs @ [b]) = from_bytes_big bs * 256 + uint b"
  by (simp add: from_bytes_big_def)

lemma length_big_endian: "length (big_endian n v) = n"
  by (induction n arbitrary: v) simp_all

lemma from_bytes_big_endian: "from_bytes_big (big_endian n v) = v mod 2 ^ (8 * n)"
proof (induction n arbitrary: v)
  case 0
  show ?case by (simp add: from_bytes_big_def)
next
  case (Suc n)
  have low: "uint (word_of_int v :: byte) = v mod 256"
    by (simp add: uint_word_of_int)
  have "v div 256 mod 2 ^ (8 * n) * 256 + v mod 256 = v mod (256 * 2 ^ (8 * n))"
    using zmod_zmult2_eq [of "2 ^ (8 * n)" v 256] by simp
  then show ?case
    by (simp add: from_bytes_big_snoc Suc.IH low power_add mult.commute)
qed

lemma slice_slice_assign:
  "lo \<le> length xs \<Longrightarrow> slice (slice_assign xs lo hi ys) lo (lo + length ys) = ys"
  by (simp add: slice_def slice_assign_def)

lemma length_slice_assign:
  "hi \<le> length xs \<Longrightarrow> lo \<le> hi \<Longrightarrow> length ys = hi - lo \<Longrightarrow>
   length (slice_assign xs lo hi ys) = length xs"
  by (simp add: slice_assign_def)

section \<open>Memory access\<close>

text \<open>
  Claim C4. For every virtual address outside \<open>[KSEG_BASE, KSEG_BASE + size)\<close>, with
  \<open>KSEG_BASE = 0x80000000\<close> and \<open>size\<close> the length of the memory, \<^verbatim>\<open>read_word\<close>
  returns 0 and \<^verbatim>\<open>write_word\<close> returns normally with the processor, and so every
  byte of memory, as it was, whatever value is to be written. Reading raises in no case,
  so \<open>read_word\<close> has no error result.
\<close>

theorem out_of_range_access:
  assumes "vaddr < 0x80000000 \<or> 0x80000000 + int (length (memory c)) \<le> vaddr"
  shows "read_word c vaddr = 0 \<and> write_word c vaddr v = Inr c"
  using assms by (auto simp: read_word_def write_word_def Let_def)

theorem out_of_range_access_witness:
  "(0xBFC00000 < (0x80000000::int) \<or>
      0x80000000 + int (length (memory MIPS_CPU_init)) \<le> 0xBFC00000) \<and>
   read_word MIPS_CPU_init 0xBFC00000 = 0 \<and>
   write_word MIPS_CPU_init 0xBFC00000 7 = Inr MIPS_CPU_init"
proof -
  have h: "0xBFC00000 < (0x80000000::int) \<or>
      0x80000000 + int (length (memory MIPS_CPU_init)) \<le> 0xBFC00000"
    by (simp add: MIPS_CPU_init_def)
  from out_of_range_access [OF h, of 7] h show ?thesis by simp
qed

text \<open>
  Claim C8. For every 32-bit value \<open>v\<close> and every virtual address whose physical offset
  passes the bounds check of the memory (\<open>0 \<le> phys \<le> size - 4\<close>), \<^verbatim>\<open>write_word\<close>
  returns normally and \<^verbatim>\<open>read_word\<close> at the same address then returns \<open>v\<close>.
\<close>

theorem write_then_read:
  assumes "0 \<le> v" and "v < 2 ^ 32"
    and "0 \<le> vaddr - 0x80000000"
    and "vaddr - 0x80000000 \<le> int (length (memory c)) - 4"
  shows "\<exists>c'. write_word c vaddr v = Inr c' \<and> read_word c' vaddr = v"
proof -
  let ?a = "nat (vaddr - 0x80000000)"
  let ?bs = "big_endian 4 v"
  let ?c' = "c\<lparr>memory := slice_assign (memory c) ?a (?a + 4) ?bs\<rparr>"
  have tb: "to_bytes_big v 4 = Inr ?bs"
    using assms by (simp add: to_bytes_big_def)
  have a: "?a + 4 \<le> length (memory c)" using assms by linarith
  have w: "write_word c vaddr v = Inr ?c'"
    using assms tb by (simp add: write_word_def Let_def)
  have len: "length (memory ?c') = length (memory c)"
    using a by (simp add: length_slice_assign length_big_endian)
  have sl: "slice (memory ?c') ?a (?a + 4) = ?bs"
    using a slice_slice_assign [of ?a "memory c" "?a + 4" ?bs]
    by (simp add: length_big_endian)
  have "read_word ?c' vaddr = from_bytes_big ?bs"
    using assms len sl by (simp add: read_word_def Let_def)
  also have "\<dots> = v mod 2 ^ (8 * 4)" by (rule from_bytes_big_endian)
  also have "\<dots> = v" using assms by simp
  finally show ?thesis using w by blast
qed

theorem write_then_read_witness:
  "(0::int) \<le> 0xDEADBEEF \<and> (0xDEADBEEF::int) < 2 ^ 32 \<and>
   (0::int) \<le> 0x80000010 - 0x80000000 \<and>
   0x80000010 - 0x80000000 \<le> int (length (memory MIPS_CPU_init)) - 4 \<and>
   (\<exists>c'. write_word MIPS_CPU_init 0x80000010 0xDEADBEEF = Inr c' \<and>
         read_word c' 0x80000010 = 0xDEADBEEF)"
proof -
  have h1: "(0::int) \<le> 0xDEADBEEF" by simp
  have h2: "(0xDEADBEEF::int) < 2 ^ 32" by simp
  have h3: "(0::int) \<le> 0x80000010 - 0x80000000" by simp
  have h4: "0x80000010 - 0x80000000 \<le> int (length (memory MIPS_CPU_init)) - 4"
    by (simp add: MIPS_CPU_init_def)
  from write_then_read [OF h1 h2 h3 h4] h4 show ?thesis by simp
qed

text \<open>A word that would reach into the last three bytes is refused by the same check:
  such a write is dropped and such a read gives 0.\<close>

lemma last_three_bytes_unmapped:
  assumes "int (length (memory c)) - 3 \<le> vaddr - 0x80000000"
  shows "read_word c vaddr = 0 \<and> write_word c vaddr v = Inr c"
  using assms by (simp add: read_word_def write_word_def Let_def)

lemma write_word_length:
  assumes "write_word c vaddr v = Inr c'"
  shows "length (memory c') = length (memory c) \<and> regs c' = regs c \<and> cycles c' = cycles c"
proof (cases "0 \<le> vaddr - 0x80000000 \<and> vaddr - 0x80000000 < int (length (memory c)) - 3")
  case False
  with assms show ?thesis by (auto simp: write_word_def Let_def)
next
  case True
  then have a: "nat (vaddr - 0x80000000) + 4 \<le> length (memory c)" by linarith
  from assms True obtain bs where bs: "to_bytes_big v 4 = Inr bs"
    and c': "c' = c\<lparr>memory := slice_assign (memory c) (nat (vaddr - 0x80000000))
                       (nat (vaddr - 0x80000000) + 4) bs\<rparr>"
    by (auto simp: write_word_def Let_def split: sum.splits)
  from bs have "length bs = 4"
    by (auto simp: to_bytes_big_def length_big_endian split: if_splits)
  with a c' show ?thesis by (simp add: length_slice_assign)
qed

section \<open>One step of the processor\<close>

text \<open>What \<^verbatim>\<open>step\<close> computes in each branch of the dispatch, with the masks written
  as remainders.\<close>

lemma step_addi:
  assumes "32 < length (regs c)"
    and "instr = read_word c (regs c ! 32)"
    and "drop_bit 26 instr AND 0x3F = 0x08"
  shows "step c = Inr (c\<lparr>regs :=
            ((regs c)[nat (drop_bit 16 instr AND 0x1F) :=
               (regs c ! nat (drop_bit 21 instr AND 0x1F) + sign_extend16 (instr AND 0xFFFF))
                 mod 2 ^ 32])
              [32 := (regs c ! 32 + 4) mod 2 ^ 32],
          cycles := cycles c + 1\<rparr>)"
  using assms
  by (simp add: step_def Let_def and_mask32 sign_extend_code)

lemma step_other:
  assumes "32 < length (regs c)"
    and "instr = read_word c (regs c ! 32)"
    and "drop_bit 26 instr AND 0x3F \<noteq> 0x08"
    and "drop_bit 26 instr AND 0x3F \<noteq> 0x23"
    and "\<not> (drop_bit 26 instr AND 0x3F = 0x00 \<and> instr AND 0x3F = 0x20)"
  shows "step c = Inr (c\<lparr>regs := (regs c)[32 := (regs c ! 32 + 4) mod 2 ^ 32],
          cycles := cycles c + 1\<rparr>)"
  using assms
  by (auto simp add: step_def Let_def and_mask32)

lemma step_short_register_file: "length (regs c) \<le> 32 \<Longrightarrow> step c = Inl IndexError"
  by (simp add: step_def)

lemma step_frame:
  assumes "32 < length (regs c)"
  shows "\<exists>c'. step c = Inr c' \<and> memory c' = memory c \<and> length (regs c') = length (regs c)"
  using assms by (simp add: step_def Let_def)

text \<open>
  Claim C6. From every state whose register list has the PC slot, \<^verbatim>\<open>step\<close> returns
  normally with the PC equal to \<open>(old PC + 4) mod 2\<^sup>3\<^sup>2\<close> and the cycle counter one
  higher, whichever instruction was fetched.
\<close>

theorem step_advances_pc_and_cycles:
  assumes "32 < length (regs c)"
  shows "\<exists>c'. step c = Inr c' \<and>
           regs c' ! 32 = (regs c ! 32 + 4) mod 2 ^ 32 \<and>
           cycles c' = cycles c + 1"
  using assms by (simp add: step_def Let_def and_mask32)

theorem step_advances_pc_and_cycles_witness:
  "32 < length (regs (booted addi_r1_image)) \<and>
   (\<exists>c'. step (booted addi_r1_image) = Inr c' \<and>
         regs c' ! 32 = 0x80000004 \<and> cycles c' = 1)"
proof -
  have h: "32 < length (regs (booted addi_r1_image))" by (simp add: boot_simps addi_r1_image_def)
  have pc: "regs (booted addi_r1_image) ! 32 = 0x80000000" by (simp add: boot_simps addi_r1_image_def)
  have cy: "cycles (booted addi_r1_image) = 0" by (simp add: boot_simps addi_r1_image_def)
  from step_advances_pc_and_cycles [OF h] h pc cy show ?thesis by simp
qed

text \<open>
  Claim C5. When the fetched instruction word has an opcode other than \<open>0x08\<close> and
  \<open>0x23\<close> and is not opcode \<open>0x00\<close> with function field \<open>0x20\<close>, \<^verbatim>\<open>step\<close>
  returns the state it started from with only the PC advanced by 4 (modulo \<open>2\<^sup>3\<^sup>2\<close>) and
  the cycle counter increased by 1: the 32 general-purpose registers and the memory are as
  before.
\<close>

theorem unknown_opcode_frame:
  assumes "32 < length (regs c)"
    and "instr = read_word c (regs c ! 32)"
    and "drop_bit 26 instr AND 0x3F \<noteq> 0x08"
    and "drop_bit 26 instr AND 0x3F \<noteq> 0x23"
    and "\<not> (drop_bit 26 instr AND 0x3F = 0x00 \<and> instr AND 0x3F = 0x20)"
  shows "\<exists>c'. step c = Inr c' \<and>
           c' = c\<lparr>regs := (regs c)[32 := (regs c ! 32 + 4) mod 2 ^ 32],
                  cycles := cycles c + 1\<rparr> \<and>
           take 32 (regs c') = take 32 (regs c) \<and>
           memory c' = memory c \<and>
           regs c' ! 32 = (regs c ! 32 + 4) mod 2 ^ 32 \<and>
           cycles c' = cycles c + 1"
  using step_other [OF assms] assms(1) by simp

theorem unknown_opcode_frame_witness:
  "32 < length (regs (booted unknown_image)) \<and>
   read_word (booted unknown_image) (regs (booted unknown_image) ! 32) = 0xFC000000 \<and>
   drop_bit 26 (0xFC000000::int) AND 0x3F = 0x3F \<and>
   (\<exists>c'. step (booted unknown_image) = Inr c' \<and>
         take 32 (regs c') = replicate 32 0 \<and>
         memory c' = memory (booted unknown_image) \<and>
         regs c' ! 32 = 0x80000004 \<and>
         cycles c' = 1)"
proof -
  let ?c = "booted unknown_image"
  have h1: "32 < length (regs ?c)" by (simp add: boot_simps unknown_image_def)
  have pc: "regs ?c ! 32 = 0x80000000" by (simp add: boot_simps unknown_image_def)
  have rw: "read_word ?c 0x80000000 = 0xFC000000" by (simp add: boot_simps unknown_image_def)
  have h2: "0xFC000000 = read_word ?c (regs ?c ! 32)" by (simp only: pc rw)
  have h3: "drop_bit 26 (0xFC000000::int) AND 0x3F \<noteq> 0x08" by simp
  have h4: "drop_bit 26 (0xFC000000::int) AND 0x3F \<noteq> 0x23" by simp
  have h5: "\<not> (drop_bit 26 (0xFC000000::int) AND 0x3F = 0x00 \<and>
                (0xFC000000::int) AND 0x3F = 0x20)" by simp
  have gp: "take 32 (regs ?c) = replicate 32 0" by (simp add: boot_simps unknown_image_def)
  have cy: "cycles ?c = 0" by (simp add: boot_simps unknown_image_def)
  from unknown_opcode_frame [OF h1 h2 h3 h4 h5] obtain c' where
    "step ?c = Inr c'" "take 32 (regs c') = take 32 (regs ?c)" "memory c' = memory ?c"
    "regs c' ! 32 = (regs ?c ! 32 + 4) mod 2 ^ 32" "cycles c' = cycles ?c + 1"
    by blast
  then show ?thesis using h1 rw pc gp cy by simp
qed

text \<open>
  Claim C7. When the fetched instruction has opcode \<open>0x08\<close> (add-immediate),
  \<^verbatim>\<open>step\<close> returns normally, with no overflow fault, and leaves in \<open>regs[rt]\<close> the
  value \<open>(regs[rs] + sign_extend16(imm)) mod 2\<^sup>3\<^sup>2\<close>, where the immediate is read as a
  16-bit two's-complement number: \<open>0x8000\<close> counts as \<open>-32768\<close>, and \<open>0xFFFFFFFF + 1\<close>
  wraps to 0 (both evaluated after the theorem).
\<close>

theorem addi_semantics:
  assumes "32 < length (regs c)"
    and "instr = read_word c (regs c ! 32)"
    and "drop_bit 26 instr AND 0x3F = 0x08"
  shows "\<exists>c'. step c = Inr c' \<and>
           regs c' ! nat (drop_bit 16 instr AND 0x1F) =
             (regs c ! nat (drop_bit 21 instr AND 0x1F) + sign_extend16 (instr AND 0xFFFF))
               mod 2 ^ 32"
proof -
  have rt: "nat (drop_bit 16 instr AND 0x1F) < 32" by (rule reg_index_lt)
  with assms(1) have "nat (drop_bit 16 instr AND 0x1F) < length (regs c)"
    and "nat (drop_bit 16 instr AND 0x1F) \<noteq> 32" by simp_all
  then show ?thesis
    using step_addi [OF assms] by simp
qed

theorem addi_semantics_witness:
  "32 < length (regs addi_wrap_state) \<and>
   read_word addi_wrap_state (regs addi_wrap_state ! 32) = 0x20410001 \<and>
   regs addi_wrap_state ! 2 = 0xFFFFFFFF \<and>
   (\<exists>c'. step addi_wrap_state = Inr c' \<and> regs c' ! 1 = 0) \<and>
   32 < length (regs (booted addi_neg_image)) \<and>
   read_word (booted addi_neg_image) (regs (booted addi_neg_image) ! 32) = 0x20018000 \<and>
   regs (booted addi_neg_image) ! 0 = 0 \<and>
   sign_extend16 0x8000 = - 32768 \<and>
   (\<exists>c'. step (booted addi_neg_image) = Inr c' \<and> regs c' ! 1 = 2 ^ 32 - 32768)"
proof -
  let ?w = "addi_wrap_state" and ?n = "booted addi_neg_image"
  note ex = boot_simps addi_wrap_state_def addi_wrap_image_def addi_neg_image_def
  have w1: "32 < length (regs ?w)" by (simp add: ex)
  have wpc: "regs ?w ! 32 = 0x80000000" by (simp add: ex)
  have wrw: "read_word ?w 0x80000000 = 0x20410001" by (simp add: ex)
  have w2: "0x20410001 = read_word ?w (regs ?w ! 32)" by (simp only: wpc wrw)
  have w3: "drop_bit 26 (0x20410001::int) AND 0x3F = 0x08" by simp
  have wr2: "regs ?w ! 2 = 0xFFFFFFFF" by (simp add: ex)
  have n1: "32 < length (regs ?n)" by (simp add: ex)
  have npc: "regs ?n ! 32 = 0x80000000" by (simp add: ex)
  have nrw: "read_word ?n 0x80000000 = 0x20018000" by (simp add: ex)
  have n2: "0x20018000 = read_word ?n (regs ?n ! 32)" by (simp only: npc nrw)
  have n3: "drop_bit 26 (0x20018000::int) AND 0x3F = 0x08" by simp
  have nr0: "regs ?n ! 0 = 0" by (simp add: ex)
  have se1: "sign_extend16 1 = 1" by (simp add: sign_extend16_def)
  have se2: "sign_extend16 0x8000 = - 32768" by (simp add: sign_extend16_def)
  have a: "\<exists>c'. step ?w = Inr c' \<and> regs c' ! 1 = 0"
    using addi_semantics [OF w1 w2 w3] wr2 se1 by simp
  have b: "\<exists>c'. step ?n = Inr c' \<and> regs c' ! 1 = 2 ^ 32 - 32768"
    using addi_semantics [OF n1 n2 n3] nr0 se2 by simp
  from a b w1 wpc wrw wr2 n1 npc nrw nr0 se2 show ?thesis by simp
qed

text \<open>
  Claim C9. Register 0 is not hard-wired to zero: on the machine booted from an image
  whose first word is \<^verbatim>\<open>addi $0, $0, 5\<close>, register 0 holds 0 before the step and 5
  after it.
\<close>

theorem register_zero_is_writable:
  "\<exists>c'. read_word (booted addi_r0_image) (regs (booted addi_r0_image) ! 32) = 0x20000005 \<and>
        regs (booted addi_r0_image) ! 0 = 0 \<and>
        step (booted addi_r0_image) = Inr c' \<and>
        regs c' ! 0 = 5"
proof -
  let ?c = "booted addi_r0_image"
  have h1: "32 < length (regs ?c)" by (simp add: boot_simps addi_r0_image_def)
  have pc: "regs ?c ! 32 = 0x80000000" by (simp add: boot_simps addi_r0_image_def)
  have rw: "read_word ?c 0x80000000 = 0x20000005" by (simp add: boot_simps addi_r0_image_def)
  have h2: "0x20000005 = read_word ?c (regs ?c ! 32)" by (simp only: pc rw)
  have h3: "drop_bit 26 (0x20000005::int) AND 0x3F = 0x08" by simp
  have r0: "regs ?c ! 0 = 0" by (simp add: boot_simps addi_r0_image_def)
  have se: "sign_extend16 5 = 5" by (simp add: sign_extend16_def)
  have h0: "0 < length (regs ?c)" by (simp add: boot_simps addi_r0_image_def)
  from step_addi [OF h1 h2 h3] h0 pc rw r0 se show ?thesis by simp
qed

text \<open>The scenario of the specification: after one step from the image whose first word
  is \<^verbatim>\<open>addi $1, $0, 5\<close>, register 1 holds 5, the PC has advanced by 4 and the cycle
  counter is 1.\<close>

lemma addi_scenario:
  "\<exists>c'. step (booted addi_r1_image) = Inr c' \<and>
        regs c' ! 1 = 5 \<and> regs c' ! 32 = 0x80000004 \<and> cycles c' = 1"
proof -
  let ?c = "booted addi_r1_image"
  have h1: "32 < length (regs ?c)" by (simp add: boot_simps addi_r1_image_def)
  have pc: "regs ?c ! 32 = 0x80000000" by (simp add: boot_simps addi_r1_image_def)
  have rw: "read_word ?c 0x80000000 = 0x20010005" by (simp add: boot_simps addi_r1_image_def)
  have h2: "0x20010005 = read_word ?c (regs ?c ! 32)" by (simp only: pc rw)
  have h3: "drop_bit 26 (0x20010005::int) AND 0x3F = 0x08" by simp
  have r0: "regs ?c ! 0 = 0" by (simp add: boot_simps addi_r1_image_def)
  have cy: "cycles ?c = 0" by (simp add: boot_simps addi_r1_image_def)
  have se: "sign_extend16 5 = 5" by (simp add: sign_extend16_def)
  from step_addi [OF h1 h2 h3] h1 pc rw r0 cy se show ?thesis by simp
qed

section \<open>Session lifecycle\<close>

lemma step_memory: "step c = Inr c' \<Longrightarrow> memory c' = memory c"
  by (auto simp: step_def Let_def split: if_splits)

text \<open>\<^verbatim>\<open>N64Emulator.step\<close>, with its pokes into memory, keeps the length of the
  memory.\<close>

lemma emu_step_memory_length:
  assumes "emu_step rnd e = Inr e'"
  shows "length (memory (cpu e')) = length (memory (cpu e))"
proof (cases "running e \<and> \<not> paused e")
  case False
  with assms show ?thesis by (auto simp: emu_step_def split: if_splits)
next
  case True
  with assms obtain c1 c2 c3 where
    s: "step (cpu e) = Inr c1"
    and w2: "c2 = c1 \<or> write_word c1 0x80300000 1 = Inr c2"
    and w3: "c3 = c2 \<or> write_word c2 0x8033B21E 8 = Inr c3"
    and e': "cpu e' = c3"
    by (auto simp: emu_step_def Let_def split: if_splits sum.splits; blast)
  from s have "memory c1 = memory (cpu e)" by (rule step_memory)
  moreover from w2 have "length (memory c2) = length (memory c1)"
    by (auto dest: write_word_length)
  moreover from w3 have "length (memory c3) = length (memory c2)"
    by (auto dest: write_word_length)
  ultimately show ?thesis using e' by simp
qed

lemma reset_pc: "regs (cpu (reset e)) ! 32 = 0xBFC00000"
  by (simp add: reset_def MIPS_CPU_init_def Let_def split: option.splits)

lemma load_rom_pc:
  "32 < length (regs (cpu e)) \<Longrightarrow>
   snd (load_rom img e) = None \<and> regs (cpu (fst (load_rom img e))) ! 32 = 0x80000000"
  by (simp add: load_rom_def Let_def)

lemma load_rom_keeps_image: "rom (fst (load_rom img e)) = Some img"
  by (simp add: load_rom_def Let_def)

lemma reset_memory_prefix:
  "rom e = Some img \<Longrightarrow> 4096 \<le> length img \<Longrightarrow>
   take 4096 (memory (cpu (reset e))) = take 4096 img"
  by (auto simp: reset_def Let_def slice_def slice_assign_def)

lemma load_rom_length_full_image:
  "4096 \<le> length img \<Longrightarrow> 4096 \<le> length (memory (cpu e)) \<Longrightarrow>
   length (memory (cpu (fst (load_rom img e)))) = length (memory (cpu e))"
  by (simp add: load_rom_def Let_def slice_def slice_assign_def)

lemma reset_length_full_image:
  "rom e = Some img \<Longrightarrow> 4096 \<le> length img \<Longrightarrow>
   length (memory (cpu (reset e))) = 4194304"
  by (auto simp: reset_def Let_def slice_def slice_assign_def MIPS_CPU_init_def)

text \<open>
  Claim C1. After \<^verbatim>\<open>load_rom\<close> of an image, \<^verbatim>\<open>reset\<close> should leave the PC at
  the post-boot entry address \<open>0x80000000\<close> that \<^verbatim>\<open>load_rom\<close> sets. The program does
  otherwise: \<^verbatim>\<open>reset\<close> builds a fresh processor and copies the image again, and never
  stores the entry address, so the PC is the reset vector \<open>0xBFC00000\<close>. Evaluated on
  the 4096-byte image \<open>addi_r1_image\<close>.
\<close>

theorem reset_after_load_pc:
  "snd (load_rom addi_r1_image N64Emulator_init) = None \<and>
   regs (cpu (fst (load_rom addi_r1_image N64Emulator_init))) ! 32 = 0x80000000 \<and>
   regs (cpu (reset (fst (load_rom addi_r1_image N64Emulator_init)))) ! 32 = 0xBFC00000 \<and>
   take 4096 (memory (cpu (reset (fst (load_rom addi_r1_image N64Emulator_init)))))
     = take 4096 addi_r1_image"
proof -
  let ?e = "fst (load_rom addi_r1_image N64Emulator_init)"
  have l: "32 < length (regs (cpu N64Emulator_init))"
    by (simp add: N64Emulator_init_def MIPS_CPU_init_def)
  have n: "4096 \<le> length addi_r1_image" by (simp add: addi_r1_image_def)
  have r: "rom ?e = Some addi_r1_image" by (rule load_rom_keeps_image)
  from load_rom_pc [OF l, of addi_r1_image] reset_pc [of ?e] reset_memory_prefix [OF r n]
  show ?thesis by simp
qed

text \<open>
  Claim C3. The memory should keep its length of 4 MiB under \<^verbatim>\<open>load_rom\<close>,
  \<^verbatim>\<open>reset\<close> and \<^verbatim>\<open>step\<close>, also for an image shorter than 4096 bytes. The program
  does otherwise: the slice assignment replaces 4096 bytes of memory by the whole of a
  shorter image, so the memory shrinks. Evaluated on the 4-byte image \<open>short_image\<close>:
  4194304 bytes before, 4190212 after \<^verbatim>\<open>load_rom\<close> and after \<^verbatim>\<open>reset\<close>.
\<close>

theorem load_rom_short_image_shrinks_memory:
  "length (memory (cpu N64Emulator_init)) = 4194304 \<and>
   snd (load_rom short_image N64Emulator_init) = None \<and>
   length (memory (cpu (fst (load_rom short_image N64Emulator_init)))) = 4190212 \<and>
   length (memory (cpu (reset (fst (load_rom short_image N64Emulator_init))))) = 4190212"
  by (simp add: boot_simps short_image_def reset_def)

text \<open>
  Claim C2, as the program has it. The snapshot that \<^verbatim>\<open>save_state\<close> takes of a
  machine holds its register list, its memory and its hat colour, and not its cycle
  counter. \<^verbatim>\<open>load_state\<close> of that snapshot, into whatever state the machine is in by
  then, returns normally and leaves every register slot, the whole memory and the hat
  colour as they were at the capture; the cycle counter is left at the value it has at
  the restore. Restored at once, the machine is exactly as it was, the cycle counter
  included.
\<close>

theorem restore_snapshot_exact:
  "load_state (save_state e) e' =
     (e'\<lparr>cpu := (cpu e')\<lparr>regs := regs (cpu e), memory := memory (cpu e)\<rparr>,
         mario_hat_color := mario_hat_color e\<rparr>, None) \<and>
   regs (cpu (fst (load_state (save_state e) e'))) = regs (cpu e) \<and>
   memory (cpu (fst (load_state (save_state e) e'))) = memory (cpu e) \<and>
   mario_hat_color (fst (load_state (save_state e) e')) = mario_hat_color e \<and>
   cycles (cpu (fst (load_state (save_state e) e'))) = cycles (cpu e') \<and>
   load_state (save_state e) e = (e, None)"
  by (simp add: save_state_def)

text \<open>Claim C2 as stated fails, the cycle counter being no part of the captured state:
  the snapshot of \<open>captured_machine\<close>, taken at cycle 0 and restored one step later,
  gives back the registers and leaves the counter at 1, so the machine is not the one
  that was captured.\<close>

theorem restore_keeps_later_cycle_counter:
  "emu_step 0 captured_machine = Inr later_machine \<and>
   cycles (cpu captured_machine) = 0 \<and>
   regs (cpu later_machine) ! 32 = 0xBFC00004 \<and>
   snd (load_state (save_state captured_machine) later_machine) = None \<and>
   regs (cpu (fst (load_state (save_state captured_machine) later_machine))) ! 32
     = 0xBFC00000 \<and>
   cycles (cpu (fst (load_state (save_state captured_machine) later_machine))) = 1 \<and>
   fst (load_state (save_state captured_machine) later_machine) \<noteq> captured_machine"
proof -
  have c: "cpu captured_machine = MIPS_CPU_init" and r: "running captured_machine"
    and p: "\<not> paused captured_machine" and pl: "Personalizer (plugins captured_machine)"
    and rd: "\<not> Rediscovered (plugins captured_machine)"
    and ih: "\<not> Infinite_Health (cheats captured_machine)"
    by (simp_all add: captured_machine_def reset_def N64Emulator_init_def)
  have pc: "regs MIPS_CPU_init ! 32 = 0xBFC00000" and len: "32 < length (regs MIPS_CPU_init)"
    and cy: "cycles MIPS_CPU_init = 0"
    by (simp_all add: MIPS_CPU_init_def)
  have rw: "read_word MIPS_CPU_init 0xBFC00000 = 0"
    by (simp add: read_word_def MIPS_CPU_init_def)
  have h2: "0 = read_word MIPS_CPU_init (regs MIPS_CPU_init ! 32)" by (simp only: pc rw)
  have st: "step MIPS_CPU_init =
      Inr (MIPS_CPU_init\<lparr>regs := (regs MIPS_CPU_init)[32 := 0xBFC00004], cycles := 1\<rparr>)"
    using step_other [OF len h2] pc cy by simp
  have a: "emu_step 0 captured_machine = Inr later_machine"
    using c r p pl rd ih st by (simp add: emu_step_def later_machine_def)
  have l: "load_state (save_state captured_machine) later_machine =
      (captured_machine\<lparr>cpu := MIPS_CPU_init\<lparr>cycles := 1\<rparr>\<rparr>, None)"
    using c by (simp add: save_state_def later_machine_def)
  have ne: "captured_machine\<lparr>cpu := MIPS_CPU_init\<lparr>cycles := 1\<rparr>\<rparr> \<noteq> captured_machine"
  proof
    assume "captured_machine\<lparr>cpu := MIPS_CPU_init\<lparr>cycles := 1\<rparr>\<rparr> = captured_machine"
    then have "cycles (cpu (captured_machine\<lparr>cpu := MIPS_CPU_init\<lparr>cycles := 1\<rparr>\<rparr>))
        = cycles (cpu captured_machine)" by (rule arg_cong)
    then show False using c cy by simp
  qed
  have lpc: "regs (cpu later_machine) ! 32 = 0xBFC00004"
    using c len by (simp add: later_machine_def)
  from a l ne lpc c pc cy show ?thesis by simp
qed

lemma load_state_keeps_cycles: "cycles (cpu (fst (load_state b e))) = cycles (cpu e)"
  by (cases b) simp_all

text \<open>
  Claim C10, as the program has it. \<^verbatim>\<open>load_state\<close> checks no size: a 3-tuple is
  installed whatever the lengths of its register list and its memory, without an error.
  When \<^verbatim>\<open>load_state\<close> does raise (the file holds no 3-tuple), the machine, and so
  every register, every byte of memory and the hat colour, is as before the call.
\<close>

theorem load_state_all_or_nothing:
  "load_state (Tuple3 r m h) e =
     (e\<lparr>cpu := (cpu e)\<lparr>regs := r, memory := m\<rparr>, mario_hat_color := h\<rparr>, None) \<and>
   (snd (load_state b e) \<noteq> None \<longrightarrow> fst (load_state b e) = e)"
  by (cases b) simp_all

theorem load_state_all_or_nothing_witness:
  "snd (load_state (Tuple2 [] []) N64Emulator_init) \<noteq> None \<and>
   fst (load_state (Tuple2 [] []) N64Emulator_init) = N64Emulator_init \<and>
   snd (load_state Garbage N64Emulator_init) \<noteq> None \<and>
   fst (load_state Garbage N64Emulator_init) = N64Emulator_init"
proof -
  have h2: "snd (load_state (Tuple2 [] []) N64Emulator_init) \<noteq> None" by simp
  have hg: "snd (load_state Garbage N64Emulator_init) \<noteq> None" by simp
  from load_state_all_or_nothing [of "[]" "[]" "[]" N64Emulator_init "Tuple2 [] []"]
    load_state_all_or_nothing [of "[]" "[]" "[]" N64Emulator_init Garbage] h2 hg
  show ?thesis by blast
qed

text \<open>Claim C10 as stated fails: the snapshot \<open>short_snapshot\<close>, with two registers
  and one byte of memory, is restored without an error, and the next \<^verbatim>\<open>step\<close> raises
  IndexError.\<close>

theorem load_state_accepts_wrong_size:
  "snd (load_state short_snapshot N64Emulator_init) = None \<and>
   regs (cpu (fst (load_state short_snapshot N64Emulator_init))) = [1, 2] \<and>
   memory (cpu (fst (load_state short_snapshot N64Emulator_init))) = [0xFF] \<and>
   length (regs (cpu N64Emulator_init)) = 33 \<and>
   step (cpu (fst (load_state short_snapshot N64Emulator_init))) = Inl IndexError"
  by (simp add: short_snapshot_def step_def N64Emulator_init_def MIPS_CPU_init_def)

end
